theory Spec2Isabelle
  imports Complex_Main "HOL-Library.Word" "HOL-Library.Monad_Syntax"
begin

section \<open>dltpy/dltfile.py: decoding DLT records, payloads and filters\<close>

text \<open>
  The module \<^verbatim>\<open>dltpy/dltfile.py\<close> builds on three collaborators that it imports:
  the generated parsers \<^verbatim>\<open>StoredMessage\<close> and \<^verbatim>\<open>PayloadItem\<close> and the native
  \<^verbatim>\<open>native_dltreader.DltReader\<close>. Their code is not part of the module, so every function
  below that calls one of them takes it as an argument, and the theorems hold for each
  possible behaviour of the collaborator.

  Python values are modelled as follows: \<^verbatim>\<open>bytes\<close> is a list of 8-bit words, \<^verbatim>\<open>str\<close> is the
  list of its code points, \<^verbatim>\<open>int\<close> is \<^typ>\<open>int\<close>, \<^verbatim>\<open>None\<close> is \<^const>\<open>None\<close>, a raised exception
  is the left injection of a sum.
\<close>

subsection \<open>Python values\<close>

type_synonym byte = "8 word"
type_synonym bytes = "byte list"
type_synonym pystr = "nat list"

datatype py_error =
    UnicodeDecodeError
  | AssertionError
  | IndexError
  | TypeError
  | ParserError

text \<open>
  \<^verbatim>\<open>bytes.decode()\<close> with its default arguments: strict UTF-8. The result is the list of
  code points, or \<^const>\<open>None\<close> where Python raises \<^verbatim>\<open>UnicodeDecodeError\<close> (a stray
  continuation byte, a truncated or overlong sequence, a surrogate, a value above U+10FFFF).
\<close>

definition is_cont :: "byte \<Rightarrow> bool" where
  "is_cont b \<longleftrightarrow> 0x80 \<le> b \<and> b \<le> 0xBF"

definition cont_bits :: "byte \<Rightarrow> nat" where
  "cont_bits b = unat b - 0x80"

fun decode :: "bytes \<Rightarrow> pystr option" where
  "decode [] = Some []"
| "decode (b0 # bs) =
     (if b0 \<le> 0x7F then map_option ((#) (unat b0)) (decode bs)
      else if 0xC2 \<le> b0 \<and> b0 \<le> 0xDF then
        (case bs of
           b1 # r \<Rightarrow>
             if is_cont b1
             then map_option ((#) ((unat b0 - 0xC0) * 64 + cont_bits b1)) (decode r)
             else None
         | _ \<Rightarrow> None)
      else if 0xE0 \<le> b0 \<and> b0 \<le> 0xEF then
        (case bs of
           b1 # b2 # r \<Rightarrow>
             if (if b0 = 0xE0 then 0xA0 else 0x80) \<le> b1
                \<and> b1 \<le> (if b0 = 0xED then 0x9F else 0xBF) \<and> is_cont b2
             then map_option
                    ((#) (((unat b0 - 0xE0) * 64 + cont_bits b1) * 64 + cont_bits b2))
                    (decode r)
             else None
         | _ \<Rightarrow> None)
      else if 0xF0 \<le> b0 \<and> b0 \<le> 0xF4 then
        (case bs of
           b1 # b2 # b3 # r \<Rightarrow>
             if (if b0 = 0xF0 then 0x90 else 0x80) \<le> b1
                \<and> b1 \<le> (if b0 = 0xF4 then 0x8F else 0xBF) \<and> is_cont b2 \<and> is_cont b3
             then map_option
                    ((#) ((((unat b0 - 0xF0) * 64 + cont_bits b1) * 64 + cont_bits b2) * 64
                          + cont_bits b3))
                    (decode r)
             else None
         | _ \<Rightarrow> None)
      else None)"

text \<open>\<^verbatim>\<open>v.replace(b'\0', b'')\<close>: every NUL byte is removed.\<close>

definition replace_nul :: "bytes \<Rightarrow> bytes" where
  "replace_nul v = filter (\<lambda>b. b \<noteq> 0) v"

text \<open>\<^verbatim>\<open>hex(v) = hexlify(v).decode()\<close>: two lower-case hexadecimal digits per byte.\<close>

definition hex_digit :: "nat \<Rightarrow> char" where
  "hex_digit n = ''0123456789abcdef'' ! n"

definition hex :: "bytes \<Rightarrow> string" where
  "hex v = concat (map (\<lambda>b. [hex_digit (unat b div 16), hex_digit (unat b mod 16)]) v)"

subsection \<open>The headers a raw record exposes\<close>

text \<open>
  \<^verbatim>\<open>loadn\<close> reads a record through five accessors. \<^verbatim>\<open>get_extended()\<close> is falsy when the
  record has no extended header and otherwise holds the keys \<^verbatim>\<open>app\<close>, \<^verbatim>\<open>ctx\<close> and
  \<^verbatim>\<open>verbose\<close>; \<^verbatim>\<open>get_basic()\<close> holds \<^verbatim>\<open>tmsp\<close> only when the standard header carries a
  timestamp; \<^verbatim>\<open>get_storage()\<close> holds \<^verbatim>\<open>ts_sec\<close> and \<^verbatim>\<open>ts_msec\<close>.
\<close>

record extended_header =
  eh_app :: bytes
  eh_ctx :: bytes
  eh_verbose :: bool

record basic_header =
  tmsp :: "int option"

record storage_header =
  ts_sec :: int
  ts_msec :: int

record raw_message =
  get_extended :: "extended_header option"
  get_basic :: basic_header
  get_storage :: storage_header
  get_payload :: bytes
  get_message :: bytes

subsection \<open>Payload values\<close>

text \<open>
  The value of a payload item: a \<^verbatim>\<open>PayloadItem.SizedString\<close> object with its \<^verbatim>\<open>data\<close>,
  plain \<^verbatim>\<open>bytes\<close>, an integer, a float (kept as its 64 bits: no arithmetic is done on it)
  or a boolean.
\<close>

datatype pyval =
    SizedString bytes
  | Bytes bytes
  | PInt int
  | PFloat "64 word"
  | PBool bool

text \<open>
  A \<^verbatim>\<open>PayloadItem\<close> as far as the module looks at it: the \<^verbatim>\<open>strg\<close> flag of its type
  info \<^verbatim>\<open>plt\<close>, and the five attributes that \<^verbatim>\<open>get_value\<close> probes with \<^verbatim>\<open>hasattr\<close>
  (\<^const>\<open>None\<close>: the object has no such attribute).
\<close>

record payload_item =
  plt_strg :: bool
  attr_str :: "pyval option"
  attr_uint :: "pyval option"
  attr_sint :: "pyval option"
  attr_float :: "pyval option"
  attr_bool :: "pyval option"

subsection \<open>\<^verbatim>\<open>DltMessage\<close>\<close>

text \<open>
  The two timestamps are Python floats. They are modelled by the real numbers that the
  expressions \<^verbatim>\<open>1e-4 * ts\<close> and \<^verbatim>\<open>ts_sec + ts_msec * 1e-3\<close> denote, without the rounding
  of IEEE doubles.
\<close>

record dlt_message =
  app :: "pystr option"
  ctx :: "pystr option"
  ts :: "real option"
  date :: "real option"
  verbose :: "bool option"
  raw_payload :: "bytes option"
  payload_cache :: "pyval list option"
  raw_data :: "bytes option"

text \<open>The fields as \<^verbatim>\<open>__init__\<close> sets them before it calls \<^verbatim>\<open>loadn\<close>.\<close>

definition init_message :: "bytes option \<Rightarrow> dlt_message" where
  "init_message rd =
     \<lparr>app = None, ctx = None, ts = None, date = None, verbose = None,
      raw_payload = None, payload_cache = None, raw_data = rd\<rparr>"

definition loadn :: "dlt_message \<Rightarrow> raw_message \<Rightarrow> py_error + dlt_message" where
  "loadn self raw =
     (let ehdr = get_extended raw; bhdr = get_basic raw; shdr = get_storage raw;
          after_ehdr =
            (case ehdr of
               None \<Rightarrow> Inr self
             | Some e \<Rightarrow>
                 (case decode (replace_nul (eh_app e)) of
                    None \<Rightarrow> Inl UnicodeDecodeError
                  | Some a \<Rightarrow>
                      (case decode (replace_nul (eh_ctx e)) of
                         None \<Rightarrow> Inl UnicodeDecodeError
                       | Some c \<Rightarrow>
                           Inr (self\<lparr>app := Some a, ctx := Some c,
                                     verbose := Some (eh_verbose e)\<rparr>))))
      in case after_ehdr of
           Inl err \<Rightarrow> Inl err
         | Inr self1 \<Rightarrow>
             (let self2 =
                    (case tmsp bhdr of
                       None \<Rightarrow> self1
                     | Some t \<Rightarrow> if t \<noteq> 0 then self1\<lparr>ts := Some (1 / 10000 * real_of_int t)\<rparr>
                                else self1)
              in Inr (self2\<lparr>date := Some (real_of_int (ts_sec shdr)
                                           + real_of_int (ts_msec shdr) * (1 / 1000)),
                            raw_payload := Some (get_payload raw),
                            raw_data := Some (get_message raw)\<rparr>)))"

definition DltMessage :: "raw_message \<Rightarrow> bytes option \<Rightarrow> py_error + dlt_message" where
  "DltMessage raw rd = loadn (init_message rd) raw"

text \<open>
  \<^verbatim>\<open>DltMessage.match\<close>: the loop over the filter pairs returns at the first pair that
  matches and returns \<^verbatim>\<open>False\<close> when the list is exhausted. A filter field is \<^const>\<open>None\<close>
  (the wildcard) or a string.
\<close>

type_synonym filters = "(pystr option \<times> pystr option) list"

fun match :: "dlt_message \<Rightarrow> filters \<Rightarrow> bool" where
  "match self [] = False"
| "match self ((a, c) # rest) =
     (if (a = None \<or> app self = a) \<and> (c = None \<or> ctx self = c) then True
      else match self rest)"

subsection \<open>\<^verbatim>\<open>get_value\<close> and \<^verbatim>\<open>parse_payload\<close>\<close>

text \<open>
  \<^verbatim>\<open>get_value\<close> returns the first attribute that the item has, probing \<^verbatim>\<open>str\<close>,
  \<^verbatim>\<open>uint\<close>, \<^verbatim>\<open>sint\<close>, \<^verbatim>\<open>float\<close>, \<^verbatim>\<open>bool\<close> in this order, and \<^verbatim>\<open>None\<close> when it has none.
\<close>

definition get_value :: "payload_item \<Rightarrow> pyval option" where
  "get_value p =
     (case attr_str p of Some v \<Rightarrow> Some v | None \<Rightarrow>
      (case attr_uint p of Some v \<Rightarrow> Some v | None \<Rightarrow>
       (case attr_sint p of Some v \<Rightarrow> Some v | None \<Rightarrow>
        (case attr_float p of Some v \<Rightarrow> Some v | None \<Rightarrow>
         (case attr_bool p of Some v \<Rightarrow> Some v | None \<Rightarrow> None)))))"

text \<open>
  \<^verbatim>\<open>PayloadItem.from_io(s)\<close> is given the stream over the payload at its current position.
  It returns the item and the position after it, or raises.
\<close>

type_synonym payload_parser = "bytes \<Rightarrow> nat \<Rightarrow> py_error + (payload_item \<times> nat)"

text \<open>The one call of \<^verbatim>\<open>logger.error\<close> in \<^verbatim>\<open>parse_payload\<close>, with its two arguments.\<close>

datatype log_record = CantParsePayload string nat

text \<open>
  The loop of \<^verbatim>\<open>parse_payload\<close>, with the position \<^verbatim>\<open>s.tell()\<close> and the list \<^verbatim>\<open>ret\<close> as
  its state. The result is what the function returns (a list or \<^verbatim>\<open>None\<close>) with what it
  logged, or the exception that leaves it: \<^verbatim>\<open>value[-1]\<close> raises \<^verbatim>\<open>IndexError\<close> on empty
  bytes and \<^verbatim>\<open>TypeError\<close> on a value that is not a sequence, and the \<^verbatim>\<open>assert\<close> raises
  \<^verbatim>\<open>AssertionError\<close> (the interpreter is taken to run without \<^verbatim>\<open>-O\<close>, which would remove
  the statement). A parser that never advances keeps the loop running for ever: the outer
  \<^const>\<open>None\<close>.
\<close>

partial_function (option) parse_payload_loop ::
  "payload_parser \<Rightarrow> bytes \<Rightarrow> nat \<Rightarrow> pyval list
     \<Rightarrow> (py_error + (pyval list option \<times> log_record list)) option" where
  "parse_payload_loop from_io pl pos ret =
     (if pos < length pl then
        (case from_io pl pos of
           Inl err \<Rightarrow> Some (Inl err)
         | Inr (item, pos') \<Rightarrow>
             (case get_value item of
                None \<Rightarrow> Some (Inr (None, [CantParsePayload (hex pl) pos]))
              | Some value0 \<Rightarrow>
                  (let val = (case value0 of SizedString d \<Rightarrow> Bytes d | _ \<Rightarrow> value0) in
                   if plt_strg item then
                     (case val of
                        Bytes b \<Rightarrow>
                          if b = [] then Some (Inl IndexError)
                          else if last b \<noteq> 0 then Some (Inl AssertionError)
                          else parse_payload_loop from_io pl pos' (ret @ [Bytes (butlast b)])
                      | _ \<Rightarrow> Some (Inl TypeError))
                   else parse_payload_loop from_io pl pos' (ret @ [val]))))
      else Some (Inr (Some ret, [])))"

declare parse_payload_loop.simps [code]

definition parse_payload ::
  "payload_parser \<Rightarrow> bytes \<Rightarrow> (py_error + (pyval list option \<times> log_record list)) option" where
  "parse_payload from_io pl = parse_payload_loop from_io pl 0 []"

text \<open>
  The property \<^verbatim>\<open>DltMessage.payload\<close>: the value it returns, the message with its cache
  as the access leaves it, and what the access logged. \<^verbatim>\<open>len(pl)\<close> raises \<^verbatim>\<open>TypeError\<close>
  when \<^verbatim>\<open>raw_payload\<close> is still \<^verbatim>\<open>None\<close>.
\<close>

definition payload ::
  "payload_parser \<Rightarrow> dlt_message
     \<Rightarrow> (py_error + (pyval list option \<times> dlt_message \<times> log_record list)) option" where
  "payload from_io self =
     (case payload_cache self of
        None \<Rightarrow>
          (case raw_payload self of
             None \<Rightarrow> Some (Inl TypeError)
           | Some pl \<Rightarrow>
               (case parse_payload from_io pl of
                  None \<Rightarrow> None
                | Some (Inl err) \<Rightarrow> Some (Inl err)
                | Some (Inr (r, logged)) \<Rightarrow>
                    Some (Inr (r, self\<lparr>payload_cache := r\<rparr>, logged))))
      | Some cached \<Rightarrow> Some (Inr (Some cached, self, [])))"

subsection \<open>File mode: the class \<^verbatim>\<open>DltFile\<close>\<close>

text \<open>
  \<^verbatim>\<open>StoredMessage.from_io(fd)\<close> is given the file and the position of \<^verbatim>\<open>fd\<close>. It returns the
  record with the position after it, or raises and leaves \<^verbatim>\<open>fd\<close> at some position
  (\<^const>\<open>Inl\<close>). The \<^verbatim>\<open>except:\<close> clause catches whatever it raises.
\<close>

type_synonym stored_parser = "bytes \<Rightarrow> nat \<Rightarrow> nat + (raw_message \<times> nat)"

definition dlt_signature :: bytes where
  "dlt_signature = [0x44, 0x4C, 0x54, 0x01]"

text \<open>
  The inner loop of \<^verbatim>\<open>get_next_message\<close> that looks for the signature: \<^verbatim>\<open>fd.read(4)\<close> at
  \<^verbatim>\<open>start_offset\<close> gives up to four bytes and moves \<^verbatim>\<open>fd\<close> behind them; a hit seeks back to
  \<^verbatim>\<open>start_offset\<close>. The result is the position of \<^verbatim>\<open>fd\<close> when the loop is left; \<open>cur\<close> is
  its position before.
\<close>

function resync :: "bytes \<Rightarrow> nat \<Rightarrow> nat \<Rightarrow> nat" where
  "resync f start_offset cur =
     (if start_offset < length f then
        (if take 4 (drop start_offset f) = dlt_signature then start_offset
         else resync f (start_offset + 1) (min (start_offset + 4) (length f)))
      else cur)"
  by pat_completeness auto
termination
  by (relation "measure (\<lambda>(f, start_offset, cur). length f - start_offset)") auto

declare resync.simps [simp del]

text \<open>
  The bytes that \<^verbatim>\<open>capture_raw\<close> reads back: \<^verbatim>\<open>fd.seek(start_offset)\<close> and
  \<^verbatim>\<open>fd.read(end_offset - start_offset)\<close>, where a negative size reads up to the end of the
  file.
\<close>

definition read_range :: "bytes \<Rightarrow> nat \<Rightarrow> nat \<Rightarrow> bytes" where
  "read_range f start_offset end_offset =
     (if end_offset < start_offset then drop start_offset f
      else take (end_offset - start_offset) (drop start_offset f))"

text \<open>
  \<^verbatim>\<open>DltFile.get_next_message\<close>, with the position of \<^verbatim>\<open>fd\<close> as its state; \<^verbatim>\<open>_f_len\<close> is the
  length of the file. The result is the returned message or \<^verbatim>\<open>None\<close>, or the exception
  that \<^verbatim>\<open>DltMessage(sm, raw_data)\<close> raises, with the position of \<^verbatim>\<open>fd\<close> afterwards.
\<close>

partial_function (option) file_get_next_message ::
  "stored_parser \<Rightarrow> bytes \<Rightarrow> filters option \<Rightarrow> bool \<Rightarrow> nat
     \<Rightarrow> ((py_error + dlt_message option) \<times> nat) option" where
  "file_get_next_message from_io f flt capture_raw pos =
     (if pos \<noteq> length f then
        (case from_io f pos of
           Inl pos_exc \<Rightarrow>
             file_get_next_message from_io f flt capture_raw (resync f (pos + 1) pos_exc)
         | Inr (sm, end_offset) \<Rightarrow>
             (let raw_data =
                    (if capture_raw then Some (read_range f pos end_offset) else None)
              in case DltMessage sm raw_data of
                   Inl err \<Rightarrow> Some (Inl err, end_offset)
                 | Inr msg \<Rightarrow>
                     if verbose msg = Some True then
                       (if flt \<noteq> None \<and> \<not> match msg (the flt)
                        then file_get_next_message from_io f flt capture_raw end_offset
                        else Some (Inr (Some msg), end_offset))
                     else file_get_next_message from_io f flt capture_raw end_offset))
      else Some (Inr None, pos))"

declare file_get_next_message.simps [code]

text \<open>
  \<^verbatim>\<open>DltFile.__iter__\<close> run to its end: the messages it yields, in order, and the exception
  that ended it, if one did.
\<close>

partial_function (option) file_iter ::
  "stored_parser \<Rightarrow> bytes \<Rightarrow> filters option \<Rightarrow> bool \<Rightarrow> nat
     \<Rightarrow> (dlt_message list \<times> py_error option) option" where
  "file_iter from_io f flt capture_raw pos =
     do {
       (ret, pos') \<leftarrow> file_get_next_message from_io f flt capture_raw pos;
       case ret of
         Inl err \<Rightarrow> Some ([], Some err)
       | Inr None \<Rightarrow> Some ([], None)
       | Inr (Some msg) \<Rightarrow>
           do {
             (rest, err) \<leftarrow> file_iter from_io f flt capture_raw pos';
             Some (msg # rest, err)
           }
     }"

declare file_iter.simps [code]

subsection \<open>Stream mode: the class \<^verbatim>\<open>DltReader\<close>\<close>

text \<open>
  The native reader, over a state \<open>'r\<close> of its own: \<^verbatim>\<open>read()\<close> tells whether a whole
  message is in its buffer, \<^verbatim>\<open>get_buffer()\<close> hands out the free part of the buffer (its
  length is what matters), \<^verbatim>\<open>update_buffer(l)\<close> takes the bytes that \<^verbatim>\<open>readinto\<close> wrote
  there, the five accessors of \<^verbatim>\<open>loadn\<close> show the current message, and
  \<^verbatim>\<open>consume_message()\<close> drops it.
\<close>

record 'r native_dltreader =
  rdr_read :: "'r \<Rightarrow> bool \<times> 'r"
  rdr_get_buffer :: "'r \<Rightarrow> nat \<times> 'r"
  rdr_update_buffer :: "bytes \<Rightarrow> 'r \<Rightarrow> 'r"
  rdr_raw :: "'r \<Rightarrow> raw_message"
  rdr_consume_message :: "'r \<Rightarrow> 'r"

text \<open>
  \<^verbatim>\<open>DltReader.__init__\<close>: \<^verbatim>\<open>filters = filters or []\<close> turns \<^verbatim>\<open>None\<close> into the empty list
  (and leaves every list as it is) before the native reader is built from
  \<^verbatim>\<open>expect_storage_header\<close> and the list. The constructor of the native reader is the
  argument \<open>new_rdr\<close>; the result is the state of the reader.
\<close>

definition DltReader_init ::
  "(bool \<Rightarrow> filters \<Rightarrow> 'r) \<Rightarrow> 'f \<Rightarrow> filters option \<Rightarrow> bool \<Rightarrow> 'r \<times> 'f" where
  "DltReader_init new_rdr fd flt expect_storage_header =
     (let flt' = (case flt of None \<Rightarrow> [] | Some fs \<Rightarrow> if fs = [] then [] else fs)
      in (new_rdr expect_storage_header flt', fd))"

text \<open>
  \<^verbatim>\<open>DltReader.get_next_message\<close>. Its state is the native reader and the byte source
  \<^verbatim>\<open>fd\<close>, whose \<^verbatim>\<open>readinto\<close> is given the length of the buffer and returns the bytes it
  wrote (none at the end of the input).
\<close>

partial_function (option) reader_get_next_message ::
  "'r native_dltreader \<Rightarrow> (nat \<Rightarrow> 'f \<Rightarrow> bytes \<times> 'f) \<Rightarrow> 'r \<times> 'f
     \<Rightarrow> ((py_error + dlt_message option) \<times> 'r \<times> 'f) option" where
  "reader_get_next_message rdr readinto st =
     (case st of (r, fd) \<Rightarrow>
        (case rdr_read rdr r of (ready, r1) \<Rightarrow>
           if \<not> ready then
             (case rdr_get_buffer rdr r1 of (buf_len, r2) \<Rightarrow>
                (case readinto buf_len fd of (written, fd') \<Rightarrow>
                   if written = [] then Some (Inr None, r2, fd')
                   else reader_get_next_message rdr readinto
                          (rdr_update_buffer rdr written r2, fd')))
           else
             (case DltMessage (rdr_raw rdr r1) None of
                Inl err \<Rightarrow> Some (Inl err, r1, fd)
              | Inr m \<Rightarrow> Some (Inr (Some m), rdr_consume_message rdr r1, fd))))"

declare reader_get_next_message.simps [code]

text \<open>
  \<^verbatim>\<open>DltReader.__iter__\<close> up to its next \<^verbatim>\<open>yield\<close>: the message it yields with the state
  to go on from, \<^const>\<open>None\<close> when the generator returns, or the exception that leaves it.
\<close>

partial_function (option) reader_next ::
  "'r native_dltreader \<Rightarrow> (nat \<Rightarrow> 'f \<Rightarrow> bytes \<times> 'f) \<Rightarrow> 'r \<times> 'f
     \<Rightarrow> (py_error + (dlt_message \<times> 'r \<times> 'f) option) option" where
  "reader_next rdr readinto st =
     do {
       (ret, st') \<leftarrow> reader_get_next_message rdr readinto st;
       case ret of
         Inl err \<Rightarrow> Some (Inl err)
       | Inr None \<Rightarrow> Some (Inr None)
       | Inr (Some m) \<Rightarrow>
           if verbose m \<noteq> Some True then reader_next rdr readinto st'
           else Some (Inr (Some (m, st')))
     }"

declare reader_next.simps [code]

subsection \<open>Stand-ins for the three collaborators\<close>

text \<open>
  The theorems below hold for every parser and every native reader. Where one of them is
  applied to a concrete input, the three collaborators are replaced by the small
  stand-ins of this section, which play the part of test doubles. They are not models of
  the generated parsers or of the native reader.

  A stored record of the stand-in format is the signature followed by one flag byte:
  1 for a verbose record, 0 for a record that is not verbose. Every record has the
  application id \<^verbatim>\<open>APP\<close>, the context id \<^verbatim>\<open>CTX\<close> and an empty payload. Parsing anything
  else raises, with \<^verbatim>\<open>fd\<close> behind the bytes that were read.
\<close>

definition double_raw :: "bool \<Rightarrow> bytes \<Rightarrow> raw_message" where
  "double_raw v msg =
     \<lparr>get_extended = Some \<lparr>eh_app = [0x41, 0x50, 0x50, 0x00],
                            eh_ctx = [0x43, 0x54, 0x58, 0x00], eh_verbose = v\<rparr>,
      get_basic = \<lparr>tmsp = Some 20000\<rparr>,
      get_storage = \<lparr>ts_sec = 5, ts_msec = 250\<rparr>,
      get_payload = [],
      get_message = msg\<rparr>"

definition double_message :: "bool \<Rightarrow> bytes \<Rightarrow> dlt_message" where
  "double_message v msg =
     \<lparr>app = Some [65, 80, 80], ctx = Some [67, 84, 88], ts = Some 2, date = Some (21 / 4),
      verbose = Some v, raw_payload = Some [], payload_cache = None, raw_data = Some msg\<rparr>"

definition double_stored_from_io :: stored_parser where
  "double_stored_from_io f pos =
     (if take 4 (drop pos f) = dlt_signature \<and> pos + 4 < length f
         \<and> (f ! (pos + 4) = 0 \<or> f ! (pos + 4) = 1)
      then Inr (double_raw (f ! (pos + 4) = 1) (take 5 (drop pos f)), pos + 5)
      else Inl (min (pos + 4) (length f)))"

text \<open>
  A payload item of the stand-in format starts with a tag byte: 0 for a string, followed
  by a length byte and that many bytes of data; 1 for an unsigned integer of one byte;
  every other tag gives an item with none of the five attributes.
\<close>

definition double_payload_from_io :: payload_parser where
  "double_payload_from_io pl pos =
     (if pos < length pl then
        (if pl ! pos = 0 then
           (if pos + 1 < length pl \<and> pos + 2 + unat (pl ! (pos + 1)) \<le> length pl
            then Inr (\<lparr>plt_strg = True,
                       attr_str = Some (SizedString (take (unat (pl ! (pos + 1)))
                                                          (drop (pos + 2) pl))),
                       attr_uint = None, attr_sint = None, attr_float = None,
                       attr_bool = None\<rparr>,
                      pos + 2 + unat (pl ! (pos + 1)))
            else Inl ParserError)
         else if pl ! pos = 1 then
           (if pos + 1 < length pl
            then Inr (\<lparr>plt_strg = False, attr_str = None,
                       attr_uint = Some (PInt (uint (pl ! (pos + 1)))),
                       attr_sint = None, attr_float = None, attr_bool = None\<rparr>,
                      pos + 2)
            else Inl ParserError)
         else Inr (\<lparr>plt_strg = False, attr_str = None, attr_uint = None,
                     attr_sint = None, attr_float = None, attr_bool = None\<rparr>,
                   pos + 1))
      else Inl ParserError)"

text \<open>
  The stand-in for the native reader holds the records that it has already framed, and
  its buffer has no free space; the byte source hands out what it is asked for.
\<close>

definition double_native :: "raw_message list native_dltreader" where
  "double_native =
     \<lparr>rdr_read = (\<lambda>q. (q \<noteq> [], q)),
      rdr_get_buffer = (\<lambda>q. (0, q)),
      rdr_update_buffer = (\<lambda>written q. q),
      rdr_raw = (\<lambda>q. case q of sm # _ \<Rightarrow> sm | [] \<Rightarrow> double_raw False []),
      rdr_consume_message = (\<lambda>q. case q of _ # rest \<Rightarrow> rest | [] \<Rightarrow> [])\<rparr>"

definition double_readinto :: "nat \<Rightarrow> bytes \<Rightarrow> bytes \<times> bytes" where
  "double_readinto buf_len fd = (take buf_len fd, drop buf_len fd)"

section \<open>Properties\<close>

subsection \<open>Messages and filters\<close>

lemma match_iff_ex:
  "match m flt \<longleftrightarrow>
     (\<exists>(a, c) \<in> set flt. (a = None \<or> app m = a) \<and> (c = None \<or> ctx m = c))"
  by (induction flt) auto

text \<open>What a message holds once \<^verbatim>\<open>DltMessage(raw, rd)\<close> has returned.\<close>

lemma DltMessage_fields:
  assumes "DltMessage raw rd = Inr m"
  shows "app m = Option.bind (get_extended raw) (\<lambda>e. decode (replace_nul (eh_app e)))"
    and "ctx m = Option.bind (get_extended raw) (\<lambda>e. decode (replace_nul (eh_ctx e)))"
    and "verbose m = map_option eh_verbose (get_extended raw)"
    and "date m = Some (real_of_int (ts_sec (get_storage raw))
                        + real_of_int (ts_msec (get_storage raw)) * (1 / 1000))"
    and "ts m = (case tmsp (get_basic raw) of None \<Rightarrow> None
                 | Some t \<Rightarrow> if t = 0 then None else Some (1 / 10000 * real_of_int t))"
    and "raw_payload m = Some (get_payload raw)"
    and "payload_cache m = None"
    and "raw_data m = Some (get_message raw)"
  using assms
  by (auto simp: DltMessage_def loadn_def init_message_def Let_def
           split: option.splits if_splits)

text \<open>\<^verbatim>\<open>loadn\<close> overwrites the \<^verbatim>\<open>raw_data\<close> that \<^verbatim>\<open>__init__\<close> was given.\<close>

lemma DltMessage_raw_data: "DltMessage raw rd = DltMessage raw None"
  by (simp add: DltMessage_def loadn_def init_message_def Let_def
           split: option.splits sum.splits)

lemma DltMessage_double: "DltMessage (double_raw v msg) rd = Inr (double_message v msg)"
  by (simp add: DltMessage_def loadn_def init_message_def double_raw_def double_message_def
        replace_nul_def)

subsection \<open>What the two iterations hand out\<close>

text \<open>
  The three lemmas of this section follow the recursion of the loops: whatever a loop
  returns, it returns from one of its \<^verbatim>\<open>return\<close> or \<^verbatim>\<open>yield\<close> statements, and the guards
  on the way there hold.
\<close>

lemma file_get_next_message_returned:
  "file_get_next_message from_io f flt capture_raw pos = Some r \<Longrightarrow>
   \<forall>m pos'. r = (Inr (Some m), pos') \<longrightarrow>
     verbose m = Some True \<and> (\<forall>fs. flt = Some fs \<longrightarrow> match m fs)"
proof (induction rule: file_get_next_message.raw_induct[rotated 1, consumes 1, case_names step])
  case (step self from_io f flt capture_raw pos r)
  let ?Q = "\<lambda>r. \<forall>m pos'. r = (Inr (Some m), pos') \<longrightarrow>
     verbose m = Some True \<and> (\<forall>fs. flt = Some fs \<longrightarrow> match m fs)"
  have IH: "\<And>p. self from_io f flt capture_raw p = Some r \<Longrightarrow> ?Q r"
    by (rule step(1))
  show ?case
  proof (cases "pos = length f")
    case True
    with step(2) show ?thesis by auto
  next
    case False
    show ?thesis
    proof (cases "from_io f pos")
      case (Inl pos_exc)
      with False step(2)
      have "self from_io f flt capture_raw (resync f (pos + 1) pos_exc) = Some r"
        by simp
      then show ?thesis by (rule IH)
    next
      case (Inr res)
      obtain sm end_offset where res: "res = (sm, end_offset)" by (cases res)
      show ?thesis
      proof (cases "DltMessage sm
                      (if capture_raw then Some (read_range f pos end_offset) else None)")
        case (Inl err)
        with False Inr res step(2) show ?thesis by (auto simp: Let_def)
      next
        case msg: (Inr msg)
        show ?thesis
        proof (cases "verbose msg = Some True")
          case v: True
          show ?thesis
          proof (cases "flt \<noteq> None \<and> \<not> match msg (the flt)")
            case True
            with False Inr res msg v step(2)
            have "self from_io f flt capture_raw end_offset = Some r"
              by (auto simp: Let_def)
            then show ?thesis by (rule IH)
          next
            case nf: False
            with False Inr res msg v step(2) have "r = (Inr (Some msg), end_offset)"
              by (auto simp: Let_def)
            with v nf show ?thesis by auto
          qed
        next
          case nv: False
          with False Inr res msg step(2)
          have "self from_io f flt capture_raw end_offset = Some r"
            by (auto simp: Let_def)
          then show ?thesis by (rule IH)
        qed
      qed
    qed
  qed
qed

lemma reader_next_yielded:
  "reader_next rdr readinto st = Some r \<Longrightarrow>
   \<forall>m st'. r = Inr (Some (m, st')) \<longrightarrow> verbose m = Some True"
proof (induction rule: reader_next.raw_induct[rotated 1, consumes 1, case_names step])
  case (step self rdr readinto st r)
  let ?Q = "\<lambda>r. \<forall>m st'. r = Inr (Some (m, st')) \<longrightarrow> verbose m = Some True"
  have IH: "\<And>s. self rdr readinto s = Some r \<Longrightarrow> ?Q r"
    by (rule step(1))
  from step(2) obtain ret st1 where
    g: "reader_get_next_message rdr readinto st = Some (ret, st1)" and
    k: "(case ret of
           Inl err \<Rightarrow> Some (Inl err)
         | Inr None \<Rightarrow> Some (Inr None)
         | Inr (Some m) \<Rightarrow>
             if verbose m \<noteq> Some True then self rdr readinto st1
             else Some (Inr (Some (m, st1)))) = Some r"
    by (auto split: bind_splits)
  show ?case
  proof (cases ret)
    case (Inl err)
    with k show ?thesis by auto
  next
    case (Inr res)
    show ?thesis
    proof (cases res)
      case None
      with k Inr show ?thesis by auto
    next
      case (Some msg)
      show ?thesis
      proof (cases "verbose msg = Some True")
        case True
        with k Inr Some show ?thesis by auto
      next
        case False
        with k Inr Some have "self rdr readinto st1 = Some r" by simp
        then show ?thesis by (rule IH)
      qed
    qed
  qed
qed

lemma file_iter_yielded:
  "file_iter from_io f flt capture_raw pos = Some r \<Longrightarrow>
   \<forall>m \<in> set (fst r). verbose m = Some True \<and> (\<forall>fs. flt = Some fs \<longrightarrow> match m fs)"
proof (induction rule: file_iter.raw_induct[rotated 1, consumes 1, case_names step])
  case (step self from_io f flt capture_raw pos r)
  from step(2) obtain ret pos' where
    g: "file_get_next_message from_io f flt capture_raw pos = Some (ret, pos')" and
    k: "(case ret of
           Inl err \<Rightarrow> Some ([], Some err)
         | Inr None \<Rightarrow> Some ([], None)
         | Inr (Some msg) \<Rightarrow>
             self from_io f flt capture_raw pos' \<bind> (\<lambda>(rest, err). Some (msg # rest, err)))
        = Some r"
    by (auto split: bind_splits)
  show ?case
  proof (cases ret)
    case (Inl err)
    with k show ?thesis by auto
  next
    case (Inr res)
    show ?thesis
    proof (cases res)
      case None
      with k Inr show ?thesis by auto
    next
      case (Some msg)
      with k Inr obtain rest err where
        t: "self from_io f flt capture_raw pos' = Some (rest, err)" and r: "r = (msg # rest, err)"
        by (auto split: bind_splits)
      from g Inr Some have
        "verbose msg = Some True \<and> (\<forall>fs. flt = Some fs \<longrightarrow> match msg fs)"
        using file_get_next_message_returned by blast
      moreover from step(1)[OF t] have
        "\<forall>m \<in> set rest. verbose m = Some True \<and> (\<forall>fs. flt = Some fs \<longrightarrow> match m fs)"
        by simp
      ultimately show ?thesis using r by simp
    qed
  qed
qed

subsection \<open>Runs of the file-mode loop\<close>

lemma file_next_at_end:
  "pos = length f \<Longrightarrow>
   file_get_next_message from_io f flt capture_raw pos = Some (Inr None, pos)"
  by (simp add: file_get_next_message.simps)

lemma file_iter_at_end:
  "pos = length f \<Longrightarrow> file_iter from_io f flt capture_raw pos = Some ([], None)"
  by (subst file_iter.simps) (simp add: file_next_at_end)

text \<open>
  Three files of the stand-in format, each with the single record \<^verbatim>\<open>DLT\x01\<close> and a flag
  byte: a verbose record read without a filter list, the same record read with the empty
  filter list, and a record that is not verbose read without a filter list.
\<close>

lemma file_next_verbose_no_filter:
  "file_get_next_message double_stored_from_io [0x44, 0x4C, 0x54, 0x01, 0x01] None False 0
     = Some (Inr (Some (double_message True [0x44, 0x4C, 0x54, 0x01, 0x01])), 5)"
  by (simp add: file_get_next_message.simps double_stored_from_io_def dlt_signature_def
        DltMessage_double double_message_def)

lemma file_next_verbose_empty_filter:
  "file_get_next_message double_stored_from_io [0x44, 0x4C, 0x54, 0x01, 0x01] (Some []) False 0
     = Some (Inr None, 5)"
  by (simp add: file_get_next_message.simps double_stored_from_io_def dlt_signature_def
        DltMessage_double)

lemma file_next_not_verbose:
  "file_get_next_message double_stored_from_io [0x44, 0x4C, 0x54, 0x01, 0x00] None False 0
     = Some (Inr None, 5)"
  by (simp add: file_get_next_message.simps double_stored_from_io_def dlt_signature_def
        DltMessage_double double_message_def)

subsection \<open>C1: the empty filter list\<close>

text \<open>
  \<^verbatim>\<open>DltMessage.match\<close> returns \<^verbatim>\<open>False\<close> on the empty filter list, for every message: its
  loop body never runs. The class \<^verbatim>\<open>DltFile\<close> skips the filter only when \<^verbatim>\<open>filters\<close> is
  \<^verbatim>\<open>None\<close>, so with the empty list its \<^verbatim>\<open>get_next_message\<close> never returns a message:
  whenever it returns, it returns \<^verbatim>\<open>None\<close> or raises.
\<close>

lemma file_next_empty_filter_list:
  assumes "file_get_next_message from_io f (Some []) capture_raw pos = Some (ret, pos')"
  shows "\<not> match m [] \<and> ret \<noteq> Inr (Some msg)"
proof
  show "\<not> match m []" by simp
  show "ret \<noteq> Inr (Some msg)"
  proof
    assume "ret = Inr (Some msg)"
    with assms file_get_next_message_returned have "match msg []" by blast
    then show False by simp
  qed
qed

text \<open>
  Without a filter list, file mode does not call \<^verbatim>\<open>match\<close>: a verbose message that passes
  no list at all is still returned.
\<close>

lemma file_next_no_filter_list:
  assumes "pos \<noteq> length f" and "from_io f pos = Inr (sm, end_offset)"
    and "DltMessage sm None = Inr msg" and "verbose msg = Some True"
  shows "file_get_next_message from_io f None capture_raw pos
           = Some (Inr (Some msg), end_offset)"
proof -
  have "DltMessage sm rd = Inr msg" for rd
    using assms(3) by (subst DltMessage_raw_data) simp
  with assms(1,2,4) show ?thesis
    by (subst file_get_next_message.simps) (simp add: Let_def)
qed

text \<open>
  The sibling path: \<^verbatim>\<open>DltReader.__init__\<close> builds the same reader for \<^verbatim>\<open>None\<close> and for the
  empty list, so stream mode takes the empty list for no filter.
\<close>

lemma DltReader_init_empty_filter_list:
  "DltReader_init new_rdr fd (Some []) expect_storage_header
     = DltReader_init new_rdr fd None expect_storage_header"
  by (simp add: DltReader_init_def)

text \<open>
  C1 fails in the class \<^verbatim>\<open>DltFile\<close> and in \<^verbatim>\<open>DltMessage.match\<close>. On a file with one verbose
  record, \<^verbatim>\<open>match\<close> is false for the message of the record on the empty list; the
  iteration yields the message when no filter list is configured and yields nothing when
  the empty list is.
\<close>

theorem empty_filter_list_yields_nothing:
  "\<not> match (double_message True [0x44, 0x4C, 0x54, 0x01, 0x01]) []
   \<and> file_iter double_stored_from_io [0x44, 0x4C, 0x54, 0x01, 0x01] None False 0
       = Some ([double_message True [0x44, 0x4C, 0x54, 0x01, 0x01]], None)
   \<and> file_iter double_stored_from_io [0x44, 0x4C, 0x54, 0x01, 0x01] (Some []) False 0
       = Some ([], None)"
proof (intro conjI)
  show "\<not> match (double_message True [0x44, 0x4C, 0x54, 0x01, 0x01]) []" by simp
  have e: "file_iter double_stored_from_io [0x44, 0x4C, 0x54, 0x01, 0x01] None False 5
             = Some ([], None)"
    by (rule file_iter_at_end) simp
  show "file_iter double_stored_from_io [0x44, 0x4C, 0x54, 0x01, 0x01] None False 0
          = Some ([double_message True [0x44, 0x4C, 0x54, 0x01, 0x01]], None)"
    by (subst file_iter.simps) (simp add: file_next_verbose_no_filter e)
  show "file_iter double_stored_from_io [0x44, 0x4C, 0x54, 0x01, 0x01] (Some []) False 0
          = Some ([], None)"
    by (subst file_iter.simps) (simp add: file_next_verbose_empty_filter)
qed

subsection \<open>C3: file mode and the verbose flag\<close>

text \<open>
  C3, as the code has it. File mode is not indifferent to the verbose flag:
  \<^verbatim>\<open>DltFile.get_next_message\<close> returns a message only under \<^verbatim>\<open>if msg.verbose:\<close>. Every
  message that the file-mode iteration yields has \<^verbatim>\<open>verbose\<close> equal to \<^verbatim>\<open>True\<close> and, when
  a filter list is configured, matches it.
\<close>

theorem file_iter_yields_verbose_only:
  assumes "file_iter from_io f flt capture_raw pos = Some (msgs, err)"
    and "m \<in> set msgs"
  shows "verbose m = Some True \<and> (case flt of None \<Rightarrow> True | Some fs \<Rightarrow> match m fs)"
  using file_iter_yielded [OF assms(1)] assms(2)
  by (auto split: option.splits)

lemma file_iter_verbose_then_not:
  "file_iter double_stored_from_io
     [0x44, 0x4C, 0x54, 0x01, 0x01, 0x44, 0x4C, 0x54, 0x01, 0x00] None False 0
   = Some ([double_message True [0x44, 0x4C, 0x54, 0x01, 0x01]], None)"
proof -
  let ?f = "[0x44, 0x4C, 0x54, 0x01, 0x01, 0x44, 0x4C, 0x54, 0x01, 0x00] :: bytes"
  have g0: "file_get_next_message double_stored_from_io ?f None False 0
              = Some (Inr (Some (double_message True [0x44, 0x4C, 0x54, 0x01, 0x01])), 5)"
    by (simp add: file_get_next_message.simps double_stored_from_io_def dlt_signature_def
          DltMessage_double double_message_def)
  have g5: "file_get_next_message double_stored_from_io ?f None False 5 = Some (Inr None, 10)"
    by (simp add: file_get_next_message.simps double_stored_from_io_def dlt_signature_def
          DltMessage_double double_message_def)
  have i5: "file_iter double_stored_from_io ?f None False 5 = Some ([], None)"
    by (subst file_iter.simps) (simp add: g5)
  show ?thesis
    by (subst file_iter.simps) (simp add: g0 i5)
qed

theorem file_iter_yields_verbose_only_witness:
  "file_iter double_stored_from_io
     [0x44, 0x4C, 0x54, 0x01, 0x01, 0x44, 0x4C, 0x54, 0x01, 0x00] None False 0
   = Some ([double_message True [0x44, 0x4C, 0x54, 0x01, 0x01]], None)
   \<and> verbose (double_message True [0x44, 0x4C, 0x54, 0x01, 0x01]) = Some True"
  using file_iter_yields_verbose_only [OF file_iter_verbose_then_not,
      of "double_message True [0x44, 0x4C, 0x54, 0x01, 0x01]"]
    file_iter_verbose_then_not
  by simp

text \<open>
  The claim as it is written fails on a file whose single record is well formed and not
  verbose, read without a filter list: the record is parsed, its message is built, and
  the iteration yields nothing.
\<close>

theorem file_iter_not_verbose_counterexample:
  "double_stored_from_io [0x44, 0x4C, 0x54, 0x01, 0x00] 0
     = Inr (double_raw False [0x44, 0x4C, 0x54, 0x01, 0x00], 5)
   \<and> DltMessage (double_raw False [0x44, 0x4C, 0x54, 0x01, 0x00]) None
       = Inr (double_message False [0x44, 0x4C, 0x54, 0x01, 0x00])
   \<and> verbose (double_message False [0x44, 0x4C, 0x54, 0x01, 0x00]) = Some False
   \<and> file_iter double_stored_from_io [0x44, 0x4C, 0x54, 0x01, 0x00] None False 0
       = Some ([], None)"
proof (intro conjI)
  show "double_stored_from_io [0x44, 0x4C, 0x54, 0x01, 0x00] 0
          = Inr (double_raw False [0x44, 0x4C, 0x54, 0x01, 0x00], 5)"
    by (simp add: double_stored_from_io_def dlt_signature_def)
  show "DltMessage (double_raw False [0x44, 0x4C, 0x54, 0x01, 0x00]) None
          = Inr (double_message False [0x44, 0x4C, 0x54, 0x01, 0x00])"
    by (rule DltMessage_double)
  show "verbose (double_message False [0x44, 0x4C, 0x54, 0x01, 0x00]) = Some False"
    by (simp add: double_message_def)
  show "file_iter double_stored_from_io [0x44, 0x4C, 0x54, 0x01, 0x00] None False 0
          = Some ([], None)"
    by (subst file_iter.simps) (simp add: file_next_not_verbose)
qed

subsection \<open>C2: stream mode and the verbose flag\<close>

text \<open>
  C2. Whatever the native reader and the byte source do, and so for every input and every
  filter list handed to the native reader, a message that \<^verbatim>\<open>DltReader.__iter__\<close> yields has
  \<^verbatim>\<open>verbose\<close> equal to \<^verbatim>\<open>True\<close>: a message whose flag is \<^verbatim>\<open>False\<close>, or \<^verbatim>\<open>None\<close> for want
  of an extended header, is skipped.
\<close>

theorem reader_iter_yields_verbose_only:
  assumes "reader_next rdr readinto st = Some (Inr (Some (m, st')))"
  shows "verbose m = Some True"
  using reader_next_yielded [OF assms] by simp

text \<open>
  A run on the stand-ins: of two framed records, the first not verbose and the second
  verbose, the iteration yields the second.
\<close>

lemma reader_next_double:
  "reader_next double_native double_readinto ([double_raw False [], double_raw True []], [])
     = Some (Inr (Some (double_message True [], [], [])))"
proof -
  have g0: "reader_get_next_message double_native double_readinto
              ([double_raw False [], double_raw True []], [])
            = Some (Inr (Some (double_message False [])), [double_raw True []], [])"
    by (simp add: reader_get_next_message.simps double_native_def DltMessage_double)
  have g1: "reader_get_next_message double_native double_readinto ([double_raw True []], [])
            = Some (Inr (Some (double_message True [])), [], [])"
    by (simp add: reader_get_next_message.simps double_native_def DltMessage_double)
  have n1: "reader_next double_native double_readinto ([double_raw True []], [])
            = Some (Inr (Some (double_message True [], [], [])))"
    by (subst reader_next.simps) (simp add: g1 double_message_def)
  show ?thesis
    by (subst reader_next.simps) (simp add: g0 n1 double_message_def)
qed

theorem reader_iter_yields_verbose_only_witness:
  "reader_next double_native double_readinto ([double_raw False [], double_raw True []], [])
     = Some (Inr (Some (double_message True [], [], [])))
   \<and> verbose (double_message True []) = Some True"
  using reader_iter_yields_verbose_only [OF reader_next_double] reader_next_double
  by simp

subsection \<open>C8: when a filter list matches\<close>

text \<open>
  C8. For a message built from a raw record, \<^verbatim>\<open>match\<close> holds exactly when some pair of
  the filter list matches in both fields, where a field matches when it is \<^verbatim>\<open>None\<close> or
  equal to the id of the message: the bytes of the extended header with every NUL
  removed, decoded. Equality of strings is equality of their code points, so it is exact
  and distinguishes case. A message without extended header has no ids, and only
  wildcards match it.
\<close>

theorem match_iff_some_pair_matches:
  assumes "DltMessage raw rd = Inr m"
  shows "match m flt \<longleftrightarrow>
           (\<exists>(a, c) \<in> set flt.
              (a = None
               \<or> a = Option.bind (get_extended raw) (\<lambda>e. decode (replace_nul (eh_app e))))
            \<and> (c = None
               \<or> c = Option.bind (get_extended raw) (\<lambda>e. decode (replace_nul (eh_ctx e)))))"
  using DltMessage_fields(1,2) [OF assms]
  by (simp add: match_iff_ex eq_commute)

theorem match_iff_some_pair_matches_witness:
  "DltMessage (double_raw True []) None = Inr (double_message True [])
   \<and> match (double_message True []) [(Some [65, 80, 81], None), (None, Some [67, 84, 88])]
   \<and> \<not> match (double_message True []) [(Some [65, 80, 80], Some [99, 116, 120])]"
proof -
  have e: "DltMessage (double_raw True []) None = Inr (double_message True [])"
    by (rule DltMessage_double)
  have d: "decode (replace_nul [0x43, 0x54, 0x58, 0x00]) = Some [67, 84, 88]"
          "decode (replace_nul [0x41, 0x50, 0x50, 0x00]) = Some [65, 80, 80]"
    by (simp_all add: replace_nul_def)
  show ?thesis
    using match_iff_some_pair_matches [OF e,
        of "[(Some [65, 80, 81], None), (None, Some [67, 84, 88])]"]
      match_iff_some_pair_matches [OF e, of "[(Some [65, 80, 80], Some [99, 116, 120])]"]
      e d
    by (simp add: double_raw_def)
qed

subsection \<open>C9: the two timestamps\<close>

text \<open>
  What \<^verbatim>\<open>loadn\<close> computes is stated in the lemma on the fields of a message above:
  \<^verbatim>\<open>date\<close> is \<^verbatim>\<open>ts_sec + ts_msec * 1e-3\<close>, and \<^verbatim>\<open>ts\<close> is \<^verbatim>\<open>1e-4 * tmsp\<close> when the standard
  header carries a timestamp other than 0.

  C9 fails where the standard header carries the timestamp 0: \<^verbatim>\<open>if ts:\<close> takes 0 for an
  absent timestamp, and \<^verbatim>\<open>ts\<close> stays \<^verbatim>\<open>None\<close> although the header carries a timestamp.
\<close>

theorem zero_timestamp_leaves_ts_unset:
  "tmsp (get_basic ((double_raw True [])\<lparr>get_basic := \<lparr>tmsp = Some 0\<rparr>\<rparr>)) = Some 0
   \<and> DltMessage ((double_raw True [])\<lparr>get_basic := \<lparr>tmsp = Some 0\<rparr>\<rparr>) None
       = Inr ((double_message True [])\<lparr>ts := None\<rparr>)
   \<and> ts ((double_message True [])\<lparr>ts := None\<rparr>) = None"
  by (simp add: DltMessage_def loadn_def init_message_def double_raw_def double_message_def
        replace_nul_def)

subsection \<open>C4: resynchronisation in file mode\<close>

text \<open>
  A signature lies inside the file with its four bytes.
\<close>

lemma signature_inside:
  assumes "take 4 (drop q f) = dlt_signature"
  shows "q + 4 \<le> length f"
proof -
  have "length (take 4 (drop q f)) = 4"
    using assms by (simp add: dlt_signature_def)
  then show ?thesis by simp
qed

text \<open>
  The scan stops at the first signature at or behind \<open>start\<close>, provided there is one.
\<close>

lemma resync_next_signature:
  assumes "start \<le> q" and "take 4 (drop q f) = dlt_signature"
  shows "start \<le> resync f start cur \<and> resync f start cur \<le> q
         \<and> take 4 (drop (resync f start cur) f) = dlt_signature
         \<and> (\<forall>k. start \<le> k \<and> k < resync f start cur \<longrightarrow> take 4 (drop k f) \<noteq> dlt_signature)"
  using assms
proof (induction f start cur rule: resync.induct)
  case (1 f start cur)
  from signature_inside [OF "1.prems"(2)] "1.prems"(1) have lt: "start < length f"
    by simp
  show ?case
  proof (cases "take 4 (drop start f) = dlt_signature")
    case True
    with lt have "resync f start cur = start"
      by (subst resync.simps) simp
    with True "1.prems"(1) show ?thesis by auto
  next
    case False
    with "1.prems" have "start \<noteq> q" by auto
    with "1.prems"(1) have le: "start + 1 \<le> q" by simp
    let ?r = "resync f (start + 1) (min (start + 4) (length f))"
    from lt False have eq: "resync f start cur = ?r"
      by (subst resync.simps) simp
    from "1.IH" [OF lt False le "1.prems"(2)]
    have ih: "start + 1 \<le> ?r" "?r \<le> q" "take 4 (drop ?r f) = dlt_signature"
      "\<forall>k. start + 1 \<le> k \<and> k < ?r \<longrightarrow> take 4 (drop k f) \<noteq> dlt_signature"
      by simp_all
    have "\<forall>k. start \<le> k \<and> k < ?r \<longrightarrow> take 4 (drop k f) \<noteq> dlt_signature"
    proof (intro allI impI)
      fix k assume k: "start \<le> k \<and> k < ?r"
      show "take 4 (drop k f) \<noteq> dlt_signature"
      proof (cases "k = start")
        case True
        with False show ?thesis by simp
      next
        case False
        with k have "start + 1 \<le> k \<and> k < ?r" by simp
        with ih(4) show ?thesis by blast
      qed
    qed
    with ih eq show ?thesis by simp
  qed
qed

text \<open>
  C4. The file is a record \<open>r1\<close>, garbage \<open>g\<close> and a record \<open>r2\<close> that starts with the
  signature. The parser reads \<open>r1\<close> at offset 0 and \<open>r2\<close> at its offset up to the end of the
  file, and it fails on the garbage: at its first byte and at every signature inside it.
  Both records give a message. Then the file-mode iteration ends, and it has built both
  messages: it yields the two, in order, each one if it is verbose and passes the filter
  list (the condition under which file mode hands out any message). After the failure at
  offset \<open>p\<close>, the end of \<open>r1\<close>, the scan from \<open>p + 1\<close> stops at the first signature behind
  \<open>p\<close>, which lies in the garbage or is the start of \<open>r2\<close>; no byte behind that offset is
  skipped, and \<^verbatim>\<open>get_next_message\<close> goes on from there.
\<close>

theorem resync_decodes_record_behind_garbage:
  fixes from_io :: stored_parser
  assumes f: "f = r1 @ g @ r2"
    and g: "g \<noteq> []"
    and sig: "take 4 r2 = dlt_signature"
    and p1: "from_io f 0 = Inr (sm1, length r1)"
    and pg: "\<And>q. length r1 \<le> q \<Longrightarrow> q < length r1 + length g
               \<Longrightarrow> q = length r1 \<or> take 4 (drop q f) = dlt_signature
               \<Longrightarrow> \<exists>e. from_io f q = Inl e"
    and p2: "from_io f (length r1 + length g) = Inr (sm2, length f)"
    and m1: "DltMessage sm1 None = Inr m1"
    and m2: "DltMessage sm2 None = Inr m2"
  shows "file_iter from_io f flt capture_raw 0
           = Some (filter (\<lambda>m. verbose m = Some True
                                \<and> (case flt of None \<Rightarrow> True | Some fs \<Rightarrow> match m fs))
                          [m1, m2], None)
         \<and> (\<forall>e. from_io f (length r1) = Inl e \<longrightarrow>
               (let q = resync f (length r1 + 1) e in
                  length r1 < q \<and> q \<le> length r1 + length g
                  \<and> take 4 (drop q f) = dlt_signature
                  \<and> (\<forall>k. length r1 < k \<and> k < q \<longrightarrow> take 4 (drop k f) \<noteq> dlt_signature)
                  \<and> file_get_next_message from_io f flt capture_raw (length r1)
                      = file_get_next_message from_io f flt capture_raw q))"
proof -
  let ?p = "length r1" and ?q2 = "length r1 + length g"
  let ?G = "file_get_next_message from_io f flt capture_raw"
  let ?I = "file_iter from_io f flt capture_raw"
  let ?surf = "\<lambda>m. verbose m = Some True \<and> (case flt of None \<Rightarrow> True | Some fs \<Rightarrow> match m fs)"
  have skip: "(flt \<noteq> None \<and> \<not> match m (the flt))
                \<longleftrightarrow> \<not> (case flt of None \<Rightarrow> True | Some fs \<Rightarrow> match m fs)" for m
    by (cases flt) simp_all
  have sig2: "take 4 (drop ?q2 f) = dlt_signature"
    using sig by (simp add: f)
  have len: "?q2 + 4 \<le> length f"
    by (rule signature_inside [OF sig2])
  have p_lt: "?p < ?q2" using g by simp
  have G_end: "?G (length f) = Some (Inr None, length f)"
    by (rule file_next_at_end) simp
  have I_end: "?I (length f) = Some ([], None)"
    by (rule file_iter_at_end) simp
  have rd1: "DltMessage sm1 rd = Inr m1" for rd
    using m1 by (subst DltMessage_raw_data) simp
  have rd2: "DltMessage sm2 rd = Inr m2" for rd
    using m2 by (subst DltMessage_raw_data) simp
  have G2: "?G ?q2 = Some (if ?surf m2 then Inr (Some m2) else Inr None, length f)"
  proof -
    from len have ne: "?q2 \<noteq> length f" by simp
    show ?thesis
      using ne p2 rd2 G_end skip [of m2]
      by (subst file_get_next_message.simps) (auto simp: Let_def)
  qed
  have step: "\<exists>q'. ?G q = ?G q' \<and> q < q' \<and> q' \<le> ?q2 \<and> take 4 (drop q' f) = dlt_signature
                \<and> (\<forall>e. from_io f q = Inl e \<longrightarrow> q' = resync f (q + 1) e)
                \<and> (\<forall>k. q < k \<and> k < q' \<longrightarrow> take 4 (drop k f) \<noteq> dlt_signature)"
    if q: "?p \<le> q" "q < ?q2" "q = ?p \<or> take 4 (drop q f) = dlt_signature" for q
  proof -
    from pg [OF q] obtain e where e: "from_io f q = Inl e" by blast
    from q(2) len have ne: "q \<noteq> length f" by simp
    have unfold: "?G q = ?G (resync f (q + 1) e)"
      using ne e by (subst file_get_next_message.simps) simp
    from q(2) have "q + 1 \<le> ?q2" by simp
    from resync_next_signature [OF this sig2, of e] unfold e
    show ?thesis by auto
  qed
  have Gg: "?G q = ?G ?q2"
    if "?p \<le> q" "q < ?q2" "q = ?p \<or> take 4 (drop q f) = dlt_signature" for q
    using that
  proof (induction "?q2 - q" arbitrary: q rule: less_induct)
    case less
    from step [OF less.prems] obtain q' where
      q': "?G q = ?G q'" "q < q'" "q' \<le> ?q2" "take 4 (drop q' f) = dlt_signature"
      by blast
    show ?case
    proof (cases "q' = ?q2")
      case True
      with q'(1) show ?thesis by simp
    next
      case False
      with q'(3) have lt: "q' < ?q2" by simp
      from less.prems(1) q'(2) have ge: "?p \<le> q'" by simp
      from lt q'(2) have "?q2 - q' < ?q2 - q" by simp
      from less.hyps [OF this ge lt] q'(4) have "?G q' = ?G ?q2" by simp
      with q'(1) show ?thesis by simp
    qed
  qed
  have Gp: "?G ?p = ?G ?q2"
    using Gg [of ?p] p_lt by simp
  have G0: "?G 0 = (if ?surf m1 then Some (Inr (Some m1), ?p) else ?G ?p)"
  proof -
    from len have ne: "0 \<noteq> length f" by auto
    show ?thesis
      using ne p1 rd1 skip [of m1]
      by (subst file_get_next_message.simps) (auto simp: Let_def)
  qed
  have Ip: "?I ?p = Some (filter ?surf [m2], None)"
    by (subst file_iter.simps) (auto simp: Gp G2 I_end)
  have I0: "?I 0 = Some (filter ?surf [m1, m2], None)"
  proof (cases "?surf m1")
    case True
    then show ?thesis
      by (subst file_iter.simps) (auto simp: G0 Ip)
  next
    case False
    then show ?thesis
      by (subst file_iter.simps) (auto simp: G0 Gp G2 I_end)
  qed
  have R: "\<forall>e. from_io f ?p = Inl e \<longrightarrow>
               (let q = resync f (?p + 1) e in
                  ?p < q \<and> q \<le> ?q2 \<and> take 4 (drop q f) = dlt_signature
                  \<and> (\<forall>k. ?p < k \<and> k < q \<longrightarrow> take 4 (drop k f) \<noteq> dlt_signature)
                  \<and> ?G ?p = ?G q)"
  proof (intro allI impI)
    fix e assume e: "from_io f ?p = Inl e"
    from step [of ?p] p_lt obtain q' where
      q': "?G ?p = ?G q'" "?p < q'" "q' \<le> ?q2" "take 4 (drop q' f) = dlt_signature"
        "\<forall>e. from_io f ?p = Inl e \<longrightarrow> q' = resync f (?p + 1) e"
        "\<forall>k. ?p < k \<and> k < q' \<longrightarrow> take 4 (drop k f) \<noteq> dlt_signature"
      by auto
    from q'(5) e have "q' = resync f (?p + 1) e" by blast
    with q' show "let q = resync f (?p + 1) e in
                  ?p < q \<and> q \<le> ?q2 \<and> take 4 (drop q f) = dlt_signature
                  \<and> (\<forall>k. ?p < k \<and> k < q \<longrightarrow> take 4 (drop k f) \<noteq> dlt_signature)
                  \<and> ?G ?p = ?G q"
      by (simp add: Let_def)
  qed
  from I0 R show ?thesis by blast
qed

text \<open>
  A run on the stand-in parser: two verbose records, and between them six bytes of
  garbage that hold a signature followed by a flag byte which does not parse.
\<close>

theorem resync_decodes_record_behind_garbage_witness:
  "file_iter double_stored_from_io
     ([0x44, 0x4C, 0x54, 0x01, 0x01] @ [0xFF, 0x44, 0x4C, 0x54, 0x01, 0x07]
        @ [0x44, 0x4C, 0x54, 0x01, 0x01]) None False 0
   = Some ([double_message True [0x44, 0x4C, 0x54, 0x01, 0x01],
            double_message True [0x44, 0x4C, 0x54, 0x01, 0x01]], None)"
proof -
  let ?r1 = "[0x44, 0x4C, 0x54, 0x01, 0x01] :: bytes"
  let ?g = "[0xFF, 0x44, 0x4C, 0x54, 0x01, 0x07] :: bytes"
  let ?r2 = "[0x44, 0x4C, 0x54, 0x01, 0x01] :: bytes"
  let ?f = "?r1 @ ?g @ ?r2"
  have g: "?g \<noteq> []" by simp
  have sig: "take 4 ?r2 = dlt_signature" by (simp add: dlt_signature_def)
  have p1: "double_stored_from_io ?f 0 = Inr (double_raw True ?r1, length ?r1)"
    by (simp add: double_stored_from_io_def dlt_signature_def)
  have p2: "double_stored_from_io ?f (length ?r1 + length ?g)
              = Inr (double_raw True ?r2, length ?f)"
    by (simp add: double_stored_from_io_def dlt_signature_def)
  have pg: "\<exists>e. double_stored_from_io ?f q = Inl e"
    if "length ?r1 \<le> q" and "q < length ?r1 + length ?g"
      and "q = length ?r1 \<or> take 4 (drop q ?f) = dlt_signature" for q
  proof -
    from that(1,2) have "q = 5 \<or> q = 6 \<or> q = 7 \<or> q = 8 \<or> q = 9 \<or> q = 10"
      by (simp add: eval_nat_numeral) arith
    then show ?thesis
      by (elim disjE) (simp_all add: double_stored_from_io_def dlt_signature_def)
  qed
  have m1: "DltMessage (double_raw True ?r1) None = Inr (double_message True ?r1)"
    by (rule DltMessage_double)
  have m2: "DltMessage (double_raw True ?r2) None = Inr (double_message True ?r2)"
    by (rule DltMessage_double)
  from resync_decodes_record_behind_garbage
         [where f = ?f and ?r1.0 = ?r1 and g = ?g and ?r2.0 = ?r2 and flt = None
            and from_io = double_stored_from_io and capture_raw = False,
          OF refl g sig p1 pg p2 m1 m2]
  show ?thesis
    by (simp add: double_message_def)
qed

subsection \<open>The payload\<close>


text \<open>
  One turn of the loop of \<^verbatim>\<open>parse_payload\<close> on a string item with the bytes \<open>b\<close>: if \<open>b\<close>
  ends in NUL, the value appended to the result is \<open>b\<close> without this last byte, and the
  loop goes on; otherwise an exception leaves the function.
\<close>

lemma string_item_step:
  assumes "pos < length pl"
    and "from_io pl pos = Inr (item, pos')"
    and "plt_strg item"
    and "get_value item = Some (SizedString b) \<or> get_value item = Some (Bytes b)"
  shows "parse_payload_loop from_io pl pos ret =
           (if b = [] then Some (Inl IndexError)
            else if last b \<noteq> 0 then Some (Inl AssertionError)
            else parse_payload_loop from_io pl pos' (ret @ [Bytes (butlast b)]))"
  using assms by (subst parse_payload_loop.simps) auto

text \<open>
  A payload that is one string item ending in NUL: the property \<^verbatim>\<open>payload\<close> hands out
  the bytes without the terminator, and caches them.
\<close>

lemma terminated_string_item_exposed:
  assumes "payload_cache self = None"
    and "raw_payload self = Some pl"
    and "pl \<noteq> []"
    and "from_io pl 0 = Inr (item, pos')"
    and "length pl \<le> pos'"
    and "plt_strg item"
    and "get_value item = Some (SizedString b) \<or> get_value item = Some (Bytes b)"
    and "b \<noteq> []" and "last b = 0"
  shows "payload from_io self
           = Some (Inr (Some [Bytes (butlast b)],
                        self\<lparr>payload_cache := Some [Bytes (butlast b)]\<rparr>, []))"
proof -
  have "parse_payload_loop from_io pl 0 []
          = parse_payload_loop from_io pl pos' ([] @ [Bytes (butlast b)])"
    using string_item_step [of 0 pl from_io item pos' b "[]"] assms(3,4,6-9) by simp
  also have "\<dots> = Some (Inr (Some [Bytes (butlast b)], []))"
    using assms(5) by (subst parse_payload_loop.simps) simp
  finally have "parse_payload from_io pl = Some (Inr (Some [Bytes (butlast b)], []))"
    by (simp add: parse_payload_def)
  with assms(1,2) show ?thesis by (simp add: payload_def)
qed

text \<open>
  A payload whose first item is a string item that does not end in NUL: the \<^verbatim>\<open>assert\<close>
  raises, nothing in \<^verbatim>\<open>parse_payload\<close> or in the property \<^verbatim>\<open>payload\<close> catches the
  exception, and nothing is logged.
\<close>

lemma unterminated_string_item_raises:
  assumes "payload_cache self = None"
    and "raw_payload self = Some pl"
    and "pl \<noteq> []"
    and "from_io pl 0 = Inr (item, pos')"
    and "plt_strg item"
    and "get_value item = Some (SizedString b) \<or> get_value item = Some (Bytes b)"
    and "b \<noteq> []" and "last b \<noteq> 0"
  shows "parse_payload from_io pl = Some (Inl AssertionError)"
    and "payload from_io self = Some (Inl AssertionError)"
proof -
  show e: "parse_payload from_io pl = Some (Inl AssertionError)"
    using string_item_step [of 0 pl from_io item pos' b "[]"] assms(3-8)
    by (simp add: parse_payload_def)
  show "payload from_io self = Some (Inl AssertionError)"
    using e assms(1,2) by (simp add: payload_def)
qed

text \<open>
  C5 holds for the bytes that end in NUL and fails for the others. For a message whose
  payload is the string item \<^verbatim>\<open>hi\<close> with its terminator, \<^verbatim>\<open>payload\<close> hands out \<^verbatim>\<open>hi\<close>. For
  the same item without the terminator, \<^verbatim>\<open>parse_payload\<close> and \<^verbatim>\<open>payload\<close> do not return a
  decode error: an \<^verbatim>\<open>AssertionError\<close> leaves them, with nothing logged. The sibling branch
  of the same loop, for an item of no known kind, does report a decode error: it logs the
  payload with the offset and returns \<^verbatim>\<open>None\<close>.
\<close>

theorem unterminated_string_raises_assertion:
  "payload double_payload_from_io
     ((double_message True [])\<lparr>raw_payload := Some [0, 3, 0x68, 0x69, 0]\<rparr>)
     = Some (Inr (Some [Bytes [0x68, 0x69]],
                  (double_message True [])\<lparr>raw_payload := Some [0, 3, 0x68, 0x69, 0],
                                              payload_cache := Some [Bytes [0x68, 0x69]]\<rparr>,
                  []))
   \<and> parse_payload double_payload_from_io [0, 2, 0x68, 0x69] = Some (Inl AssertionError)
   \<and> payload double_payload_from_io
        ((double_message True [])\<lparr>raw_payload := Some [0, 2, 0x68, 0x69]\<rparr>)
       = Some (Inl AssertionError)
   \<and> parse_payload double_payload_from_io [9]
       = Some (Inr (None, [CantParsePayload ''09'' 0]))"
proof (intro conjI)
  let ?ok = "\<lparr>plt_strg = True, attr_str = Some (SizedString [0x68, 0x69, 0]),
               attr_uint = None, attr_sint = None, attr_float = None, attr_bool = None\<rparr>"
  let ?bad = "\<lparr>plt_strg = True, attr_str = Some (SizedString [0x68, 0x69]),
                attr_uint = None, attr_sint = None, attr_float = None, attr_bool = None\<rparr>"
  have p_ok: "double_payload_from_io [0, 3, 0x68, 0x69, 0] 0 = Inr (?ok, 5)"
    by (simp add: double_payload_from_io_def)
  have v_ok: "get_value ?ok = Some (SizedString [0x68, 0x69, 0])"
    by (simp add: get_value_def)
  have p_bad: "double_payload_from_io [0, 2, 0x68, 0x69] 0 = Inr (?bad, 4)"
    by (simp add: double_payload_from_io_def)
  have v_bad: "get_value ?bad = Some (SizedString [0x68, 0x69])"
    by (simp add: get_value_def)
  show "payload double_payload_from_io
          ((double_message True [])\<lparr>raw_payload := Some [0, 3, 0x68, 0x69, 0]\<rparr>)
        = Some (Inr (Some [Bytes [0x68, 0x69]],
                     (double_message True [])\<lparr>raw_payload := Some [0, 3, 0x68, 0x69, 0],
                                                 payload_cache := Some [Bytes [0x68, 0x69]]\<rparr>,
                     []))"
    using terminated_string_item_exposed
            [of "(double_message True [])\<lparr>raw_payload := Some [0, 3, 0x68, 0x69, 0]\<rparr>"
                "[0, 3, 0x68, 0x69, 0]" double_payload_from_io ?ok 5 "[0x68, 0x69, 0]"]
          p_ok v_ok
    by (simp add: double_message_def)
  show "parse_payload double_payload_from_io [0, 2, 0x68, 0x69] = Some (Inl AssertionError)"
    using unterminated_string_item_raises(1)
            [of "(double_message True [])\<lparr>raw_payload := Some [0, 2, 0x68, 0x69]\<rparr>"
                "[0, 2, 0x68, 0x69]" double_payload_from_io ?bad 4 "[0x68, 0x69]"]
          p_bad v_bad
    by (simp add: double_message_def)
  show "payload double_payload_from_io
          ((double_message True [])\<lparr>raw_payload := Some [0, 2, 0x68, 0x69]\<rparr>)
        = Some (Inl AssertionError)"
    using unterminated_string_item_raises(2)
            [of "(double_message True [])\<lparr>raw_payload := Some [0, 2, 0x68, 0x69]\<rparr>"
                "[0, 2, 0x68, 0x69]" double_payload_from_io ?bad 4 "[0x68, 0x69]"]
          p_bad v_bad
    by (simp add: double_message_def)
  show "parse_payload double_payload_from_io [9]
          = Some (Inr (None, [CantParsePayload ''09'' 0]))"
    unfolding parse_payload_def
    by (subst parse_payload_loop.simps)
       (simp add: double_payload_from_io_def get_value_def hex_def hex_digit_def)
qed



text \<open>
  C10. For a message whose payload starts with a string item of empty bytes,
  \<^verbatim>\<open>parse_payload\<close> raises \<^verbatim>\<open>IndexError\<close> from \<^verbatim>\<open>value[-1]\<close>, and so does the property
  \<^verbatim>\<open>payload\<close>; neither returns \<^verbatim>\<open>None\<close>.
\<close>

theorem empty_string_item_raises:
  assumes "payload_cache self = None"
    and "raw_payload self = Some pl"
    and "pl \<noteq> []"
    and "from_io pl 0 = Inr (item, pos')"
    and "plt_strg item"
    and "get_value item = Some (SizedString []) \<or> get_value item = Some (Bytes [])"
  shows "parse_payload from_io pl = Some (Inl IndexError)
         \<and> payload from_io self = Some (Inl IndexError)"
proof -
  have "parse_payload from_io pl = Some (Inl IndexError)"
    unfolding parse_payload_def using assms(3-6)
    by (subst parse_payload_loop.simps) auto
  then show ?thesis using assms(1,2) by (simp add: payload_def)
qed

theorem empty_string_item_raises_witness:
  "payload double_payload_from_io ((double_message True [])\<lparr>raw_payload := Some [0, 0]\<rparr>)
     = Some (Inl IndexError)"
proof -
  let ?item = "\<lparr>plt_strg = True, attr_str = Some (SizedString []),
                 attr_uint = None, attr_sint = None, attr_float = None, attr_bool = None\<rparr>"
  have p: "double_payload_from_io [0, 0] 0 = Inr (?item, 2)"
    by (simp add: double_payload_from_io_def)
  have v: "get_value ?item = Some (SizedString [])"
    by (simp add: get_value_def)
  show ?thesis
    using empty_string_item_raises [of "(double_message True [])\<lparr>raw_payload := Some [0, 0]\<rparr>"
        "[0, 0]" double_payload_from_io ?item 2] p v
    by (simp add: double_message_def)
qed

subsection \<open>C7: the payload cache\<close>

text \<open>
  A cached list is returned without a call of the parser, and a list that
  \<^verbatim>\<open>parse_payload\<close> returns is cached: the second access returns it whatever the parser
  would do.
\<close>

lemma payload_cached:
  "payload_cache self = Some cached \<Longrightarrow>
   payload from_io self = Some (Inr (Some cached, self, []))"
  by (simp add: payload_def)

lemma payload_parsed:
  assumes "payload_cache self = None" and "raw_payload self = Some pl"
    and "parse_payload from_io pl = Some (Inr (Some vs, logged))"
  shows "payload from_io self = Some (Inr (Some vs, self\<lparr>payload_cache := Some vs\<rparr>, logged))"
    and "payload from_io' (self\<lparr>payload_cache := Some vs\<rparr>)
           = Some (Inr (Some vs, self\<lparr>payload_cache := Some vs\<rparr>, []))"
  using assms by (simp_all add: payload_def)

text \<open>
  C7 fails where \<^verbatim>\<open>parse_payload\<close> returns \<^verbatim>\<open>None\<close>: the cache holds \<^verbatim>\<open>None\<close> before and
  after, and \<^verbatim>\<open>None\<close> is also what \<^verbatim>\<open>payload\<close> takes for an empty cache. For a message
  whose payload is the single byte 9, which the stand-in parser reads as an item of no
  known kind, an access parses the payload, logs the error and leaves the message as it
  was, so that the next access does the same again.
\<close>

theorem payload_parsed_again_after_failure:
  "payload double_payload_from_io ((double_message True [])\<lparr>raw_payload := Some [9]\<rparr>)
     = Some (Inr (None, (double_message True [])\<lparr>raw_payload := Some [9]\<rparr>,
                  [CantParsePayload ''09'' 0]))"
proof -
  have "parse_payload double_payload_from_io [9]
          = Some (Inr (None, [CantParsePayload ''09'' 0]))"
    unfolding parse_payload_def
    by (subst parse_payload_loop.simps)
       (simp add: double_payload_from_io_def get_value_def hex_def hex_digit_def)
  then show ?thesis
    by (simp add: payload_def double_message_def)
qed

end
